theory Spec2Isabelle
  imports Main "HOL-Library.AList" "HOL-Library.Sublist" "HOL-Library.Multiset"
begin

section \<open>Python values\<close>

text \<open>
  A Python \<open>str\<close> is a sequence of Unicode code points, and \<open>len\<close> counts code points.
  Literals of the source are written with \<open>lit\<close>, which maps an ASCII literal to its code
  points.
\<close>

type_synonym pystr = "nat list"

definition lit :: "string \<Rightarrow> pystr" where
  "lit s = map of_char s"

text \<open>
  The exceptions of the modelled code: the three it can raise by itself, and \<open>LibraryError\<close>
  for one that a library call raised (with its message).
\<close>

datatype py_error =
    KeyError pystr
  | IndexError
  | UnboundLocalError string
  | LibraryError pystr

section \<open>Extractor: the headings dictionary\<close>

text \<open>
  \<open>extract_onpage_data\<close> builds \<open>headers\<close> with one entry per heading level; the texts
  found by the HTML parser for a tag (\<open>soup.find_all(h)\<close>, each stripped) are the parameter
  \<open>find_all\<close>.
\<close>

type_synonym headers = "pystr \<rightharpoonup> pystr list"

fun collect_headers :: "(pystr \<Rightarrow> pystr list) \<Rightarrow> pystr list \<Rightarrow> headers \<Rightarrow> headers" where
  "collect_headers find_all [] hd_map = hd_map"
| "collect_headers find_all (h # hs) hd_map =
     collect_headers find_all hs (hd_map(h \<mapsto> find_all h))"

definition extract_headers :: "(pystr \<Rightarrow> pystr list) \<Rightarrow> headers" where
  "extract_headers find_all =
     collect_headers find_all [lit ''h1'', lit ''h2'', lit ''h3'', lit ''h4''] Map.empty"

section \<open>Scorer\<close>

text \<open>\<open>headers[k]\<close>: a missing key raises \<open>KeyError\<close>.\<close>

definition subscript :: "headers \<Rightarrow> pystr \<Rightarrow> py_error + pystr list" where
  "subscript hd_map k = (case hd_map k of None \<Rightarrow> Inl (KeyError k) | Some v \<Rightarrow> Inr v)"

text \<open>The increment of the title block (lines 58 to 64 of \<open>streamlit_app.py\<close>).\<close>

definition title_points :: "pystr \<Rightarrow> int" where
  "title_points title =
     (if 50 \<le> length title \<and> length title \<le> 60 then 20
      else if (30 \<le> length title \<and> length title < 50) \<or> (60 < length title \<and> length title \<le> 70)
      then 10
      else 5)"

text \<open>The increment of the description block (lines 66 to 72).\<close>

definition desc_points :: "pystr \<Rightarrow> int" where
  "desc_points meta_desc =
     (if 120 \<le> length meta_desc \<and> length meta_desc \<le> 160 then 20
      else if (80 \<le> length meta_desc \<and> length meta_desc < 120)
            \<or> (160 < length meta_desc \<and> length meta_desc \<le> 200)
      then 10
      else 5)"

text \<open>
  The value of the local variable \<open>score\<close> when line 90 is reached, or the exception that a
  subscript raised on the way. The statements run in the order of the source: the title and
  the description first, then \<open>headers['h1']\<close>, \<open>headers['h2']\<close> and \<open>headers['h3']\<close>.
\<close>

definition score_before_cap :: "pystr \<Rightarrow> pystr \<Rightarrow> headers \<Rightarrow> py_error + int" where
  "score_before_cap title meta_desc hd_map =
     (let score = 0;
          score = score + title_points title;
          score = score + desc_points meta_desc
      in (case subscript hd_map (lit ''h1'') of
            Inl e \<Rightarrow> Inl e
          | Inr h1 \<Rightarrow>
              (let score = (if length h1 > 0 then score + 20 else score + 0)
               in (case subscript hd_map (lit ''h2'') of
                     Inl e \<Rightarrow> Inl e
                   | Inr h2 \<Rightarrow>
                       (case subscript hd_map (lit ''h3'') of
                          Inl e \<Rightarrow> Inl e
                        | Inr h3 \<Rightarrow>
                            (let h2_count = length h2;
                                 h3_count = length h3;
                                 score = (if h2_count \<ge> 1 then score + 10 else score);
                                 score = (if h3_count \<ge> 2 then score + 10 else score)
                             in Inr score))))))"

definition calculate_seo_score :: "pystr \<Rightarrow> pystr \<Rightarrow> headers \<Rightarrow> py_error + int" where
  "calculate_seo_score title meta_desc hd_map =
     (case score_before_cap title meta_desc hd_map of
        Inl e \<Rightarrow> Inl e
      | Inr score \<Rightarrow> Inr (min score 60))"

text \<open>Inputs used to run the scorer on concrete pages.\<close>

definition sample_headers :: headers where
  "sample_headers =
     [lit ''h1'' \<mapsto> [lit ''Welcome''], lit ''h2'' \<mapsto> [lit ''About''],
      lit ''h3'' \<mapsto> [lit ''Team'', lit ''Contact''], lit ''h4'' \<mapsto> []]"

definition empty_headers :: headers where
  "empty_headers =
     [lit ''h1'' \<mapsto> [], lit ''h2'' \<mapsto> [], lit ''h3'' \<mapsto> [], lit ''h4'' \<mapsto> []]"

section \<open>Characters\<close>

text \<open>
  What Python does with an ASCII code point is written out. What it does with the others is
  read from the Unicode database of the interpreter, which is a parameter of the model:
  \<open>uni_lower\<close> is \<open>str.lower\<close> on a string that holds a non-ASCII code point, \<open>uni_alnum\<close> tells
  whether a non-ASCII code point is alphanumeric (and so matched by \<open>\w\<close>), \<open>uni_space\<close>
  whether it is whitespace.
\<close>

record unicode_tables =
  uni_lower :: "pystr \<Rightarrow> pystr"
  uni_alnum :: "nat \<Rightarrow> bool"
  uni_space :: "nat \<Rightarrow> bool"

text \<open>A table for runs on ASCII inputs, where no entry of it is consulted.\<close>

definition no_unicode :: unicode_tables where
  "no_unicode = \<lparr>uni_lower = (\<lambda>s. s), uni_alnum = (\<lambda>c. False), uni_space = (\<lambda>c. False)\<rparr>"

text \<open>The character class \<open>[a-zA-Z]\<close>.\<close>

definition ascii_letter :: "nat \<Rightarrow> bool" where
  "ascii_letter c = ((65 \<le> c \<and> c \<le> 90) \<or> (97 \<le> c \<and> c \<le> 122))"

text \<open>The class \<open>\w\<close> of a \<open>str\<close> pattern: alphanumeric characters and the underscore.\<close>

definition word_char :: "unicode_tables \<Rightarrow> nat \<Rightarrow> bool" where
  "word_char U c =
     (if c < 128 then ascii_letter c \<or> (48 \<le> c \<and> c \<le> 57) \<or> c = 95 else uni_alnum U c)"

text \<open>Whitespace as \<open>str.strip()\<close> sees it.\<close>

definition space_char :: "unicode_tables \<Rightarrow> nat \<Rightarrow> bool" where
  "space_char U c = (if c < 128 then (9 \<le> c \<and> c \<le> 13) \<or> (28 \<le> c \<and> c \<le> 32) else uni_space U c)"

definition ascii_lower :: "nat \<Rightarrow> nat" where
  "ascii_lower c = (if 65 \<le> c \<and> c \<le> 90 then c + 32 else c)"

definition py_lower :: "unicode_tables \<Rightarrow> pystr \<Rightarrow> pystr" where
  "py_lower U s = (if list_all (\<lambda>c. c < 128) s then map ascii_lower s else uni_lower U s)"

definition py_strip :: "unicode_tables \<Rightarrow> pystr \<Rightarrow> pystr" where
  "py_strip U s = rev (dropWhile (space_char U) (rev (dropWhile (space_char U) s)))"

text \<open>\<open>str(i)\<close> of an integer, as an f-string formats it.\<close>

function digits :: "nat \<Rightarrow> pystr" where
  "digits n = (if n < 10 then [48 + n] else digits (n div 10) @ [48 + n mod 10])"
  by pat_completeness auto
termination
  by (relation "measure (\<lambda>n. n)") auto

definition py_str_int :: "int \<Rightarrow> pystr" where
  "py_str_int i = (if i < 0 then 45 # digits (nat (- i)) else digits (nat i))"

section \<open>Keyword analyzer\<close>

subsection \<open>The regular expression\<close>

text \<open>
  \<open>re.findall(r'\b[a-zA-Z]{3,}\b', s)\<close>. A position of the scan is the character in front of it
  (\<open>None\<close> at the start of the string) and the rest of the string. \<open>\b\<close> holds at a position
  when exactly one of the characters around it is a word character, the two ends of the
  string counting as non-word.
\<close>

definition head :: "pystr \<Rightarrow> nat option" where
  "head s = (case s of [] \<Rightarrow> None | c # _ \<Rightarrow> Some c)"

definition word_at :: "unicode_tables \<Rightarrow> nat option \<Rightarrow> bool" where
  "word_at U x = (case x of None \<Rightarrow> False | Some c \<Rightarrow> word_char U c)"

definition boundary :: "unicode_tables \<Rightarrow> nat option \<Rightarrow> nat option \<Rightarrow> bool" where
  "boundary U prev succ = (word_at U prev \<noteq> word_at U succ)"

text \<open>
  A match at a position: \<open>\b\<close> there, then \<open>k\<close> letters for the largest \<open>k \<ge> 3\<close> behind
  which \<open>\b\<close> holds again (the quantifier is greedy and gives letters back one at a time).
  The result is the length of the match.
\<close>

definition match_here :: "unicode_tables \<Rightarrow> nat option \<Rightarrow> pystr \<Rightarrow> nat option" where
  "match_here U prev s =
     (if boundary U prev (head s)
      then find (\<lambda>k. boundary U (Some (s ! (k - 1))) (head (drop k s)))
             (rev [3 ..< Suc (length (takeWhile ascii_letter s))])
      else None)"

text \<open>
  \<open>findall\<close> scans from the left: a match is collected and the scan goes on behind it;
  where nothing matches, the scan moves one character on.
\<close>

function findall :: "unicode_tables \<Rightarrow> nat option \<Rightarrow> pystr \<Rightarrow> pystr list" where
  "findall U prev [] = []"
| "findall U prev (c # cs) =
     (case match_here U prev (c # cs) of
        Some k \<Rightarrow>
          take k (c # cs) # findall U (Some ((c # cs) ! (k - 1))) (drop k (c # cs))
      | None \<Rightarrow> findall U (Some c) cs)"
  by pat_completeness auto

termination findall
proof (relation "measure (\<lambda>(U, prev, s). length s)")
  show "wf (measure (\<lambda>(U, prev, s). length s))"
    by simp
next
  fix U :: unicode_tables and prev :: "nat option" and c :: nat and cs :: pystr
  show "((U, Some c, cs), (U, prev, c # cs)) \<in> measure (\<lambda>(U, prev, s). length s)"
    by simp
next
  fix U :: unicode_tables and prev :: "nat option" and c :: nat and cs :: pystr and k :: nat
  assume m: "match_here U prev (c # cs) = Some k"
  have found: "find P xs = Some x \<Longrightarrow> x \<in> set xs" for P :: "nat \<Rightarrow> bool" and xs x
    by (induction xs) (auto split: if_splits)
  from m have "k \<in> set (rev [3 ..< Suc (length (takeWhile ascii_letter (c # cs)))])"
    by (auto simp: match_here_def split: if_splits dest: found)
  then have "0 < k" by auto
  then show "((U, Some ((c # cs) ! (k - 1)), drop k (c # cs)), (U, prev, c # cs))
      \<in> measure (\<lambda>(U, prev, s). length s)"
    by simp
qed

text \<open>Line 107: the words of the lower-cased text.\<close>

definition tokenize :: "unicode_tables \<Rightarrow> pystr \<Rightarrow> pystr list" where
  "tokenize U body_text = findall U None (py_lower U body_text)"

subsection \<open>Counting and ranking\<close>

text \<open>
  A \<open>dict\<close> keeps its keys in the order of their first insertion, and assigning to a key
  that is present leaves its place unchanged: an association list updated in place.
\<close>

definition dict_get :: "('k \<times> 'v) list \<Rightarrow> 'k \<Rightarrow> 'v \<Rightarrow> 'v" where
  "dict_get d k dflt = (case map_of d k of None \<Rightarrow> dflt | Some v \<Rightarrow> v)"

fun count_loop :: "pystr list \<Rightarrow> (pystr \<times> int) list \<Rightarrow> (pystr \<times> int) list" where
  "count_loop [] freq = freq"
| "count_loop (w # ws) freq = count_loop ws (AList.update w (dict_get freq w 0 + 1) freq)"

text \<open>
  \<open>sorted(xs, key=key, reverse=True)\<close>: the sort is stable, and with \<open>reverse=True\<close> the list
  is reversed before and after an ascending stable sort, so that elements with equal keys
  keep the order they had in \<open>xs\<close>.
\<close>

definition sorted_reverse :: "('a \<Rightarrow> int) \<Rightarrow> 'a list \<Rightarrow> 'a list" where
  "sorted_reverse key xs = rev (sort_key key (rev xs))"

text \<open>The slice \<open>xs[:n]\<close>; a negative \<open>n\<close> counts from the end.\<close>

definition slice_to :: "'a list \<Rightarrow> int \<Rightarrow> 'a list" where
  "slice_to xs n = (if n < 0 then take (nat (int (length xs) + n)) xs else take (nat n) xs)"

definition get_top_keywords :: "unicode_tables \<Rightarrow> pystr \<Rightarrow> int \<Rightarrow> (pystr \<times> int) list" where
  "get_top_keywords U body_text top_n =
     (let words = tokenize U body_text;
          freq = count_loop words [];
          sorted_freq = sorted_reverse snd freq
      in slice_to sorted_freq top_n)"

subsection \<open>The specification's vocabulary\<close>

text \<open>The maximal runs of characters that satisfy \<open>P\<close>, from left to right.\<close>

function runs :: "(nat \<Rightarrow> bool) \<Rightarrow> pystr \<Rightarrow> pystr list" where
  "runs P [] = []"
| "runs P (c # cs) =
     (if P c then (c # takeWhile P cs) # runs P (dropWhile P cs) else runs P cs)"
  by pat_completeness auto
termination
  by (relation "measure (\<lambda>(P, s). length s)") (auto simp: length_dropWhile_le less_Suc_eq_le)

text \<open>
  The tokenization as the specification words it: the runs of three or more ASCII letters
  of the lower-cased text, every other character being a separator.
\<close>

definition letter_runs :: "unicode_tables \<Rightarrow> pystr \<Rightarrow> pystr list" where
  "letter_runs U body_text = filter (\<lambda>w. 3 \<le> length w) (runs ascii_letter (py_lower U body_text))"

text \<open>A word that the pattern accepts: three or more characters, all of them ASCII letters.\<close>

definition word_ok :: "pystr \<Rightarrow> bool" where
  "word_ok w = (3 \<le> length w \<and> list_all ascii_letter w)"

text \<open>The position of the first occurrence of \<open>x\<close> in \<open>xs\<close>.\<close>

fun first_index :: "'a list \<Rightarrow> 'a \<Rightarrow> nat" where
  "first_index [] x = 0"
| "first_index (y # ys) x = (if x = y then 0 else Suc (first_index ys x))"

text \<open>
  The ranking order: a higher count first, and among equal counts the word that occurs
  first in \<open>ws\<close>.
\<close>

definition ranks_before :: "pystr list \<Rightarrow> pystr \<times> int \<Rightarrow> pystr \<times> int \<Rightarrow> bool" where
  "ranks_before ws p q =
     (snd p > snd q \<or> (snd p = snd q \<and> first_index ws (fst p) < first_index ws (fst q)))"

section \<open>The user interface and the external services\<close>

text \<open>
  A call into Streamlit is recorded as an event, in the order of the calls. A formatted
  list keeps its elements (\<open>St_markdown_list\<close>, \<open>St_write_list\<close>) instead of Python's rendering
  of them.
\<close>

datatype st_event =
    St_title pystr
  | St_subheader pystr
  | St_markdown pystr
  | St_markdown_list pystr "pystr list"
  | St_metric pystr int pystr
  | St_progress int int
  | St_pyplot pystr
  | St_write pystr
  | St_write_list pystr "(pystr \<times> int) list"
  | St_info pystr
  | St_success pystr
  | St_warning pystr
  | St_error pystr

record response =
  status_code :: int
  body :: pystr

text \<open>What the HTML parser answers about a page (lines 37 to 49).\<close>

record soup =
  title_tag :: pystr
  meta_desc_content :: pystr
  find_all_texts :: "pystr \<Rightarrow> pystr list"
  visible_texts :: pystr

text \<open>
  The libraries the program calls. A call that raises an exception \<open>e\<close> returns \<open>Inl\<close> of
  \<open>str(e)\<close>.
  \<^item> \<open>requests_get url\<close> is \<open>requests.get(url, timeout=10)\<close>;
  \<^item> \<open>parse_html html\<close> is \<open>BeautifulSoup(html, 'html.parser')\<close> with the queries of
    \<open>extract_onpage_data\<close>;
  \<^item> \<open>openai_create prompt\<close> is \<open>openai.Completion.create(engine="text-davinci-003",
    prompt=prompt, max_tokens=100, temperature=0.7)\<close> and returns the texts of
    \<open>completion.choices\<close>; a missing API key makes it raise;
  \<^item> \<open>wordcloud_generate body_text\<close> is \<open>WordCloud(..., max_words=50).generate(body_text)\<close>.
\<close>

record services =
  requests_get :: "pystr \<Rightarrow> pystr + response"
  parse_html :: "pystr \<Rightarrow> soup"
  openai_create :: "pystr \<Rightarrow> pystr + pystr list"
  wordcloud_generate :: "pystr \<Rightarrow> pystr + unit"

section \<open>Fetcher\<close>

text \<open>
  The whole body of \<open>fetch_html\<close> stands in \<open>try ... except Exception\<close>; the call of
  \<open>requests.get\<close> is the statement of it that can raise. \<open>request_url\<close> is the URL
  after lines 21 and 22.
\<close>

definition request_url :: "pystr \<Rightarrow> pystr" where
  "request_url url = (if \<not> prefix (lit ''http'') url then lit ''https://'' @ url else url)"

definition fetch_html :: "(pystr \<Rightarrow> pystr + response) \<Rightarrow> pystr \<Rightarrow> st_event list \<times> pystr option" where
  "fetch_html get url =
     (let url = request_url url
      in (case get url of
            Inl e \<Rightarrow> ([St_error (lit ''Error fetching the URL: '' @ e)], None)
          | Inr response \<Rightarrow>
              if status_code response = 200 then ([], Some (body response))
              else ([St_warning (lit ''Could not retrieve the page. Check URL or status code.'')],
                    None)))"

section \<open>Extractor\<close>

definition extract_onpage_data :: "(pystr \<Rightarrow> soup) \<Rightarrow> pystr \<Rightarrow> pystr \<times> pystr \<times> headers \<times> pystr" where
  "extract_onpage_data parse html =
     (let sp = parse html
      in (title_tag sp, meta_desc_content sp, extract_headers (find_all_texts sp),
          visible_texts sp))"

section \<open>Advisory generator\<close>

definition genie_prompt :: "pystr \<Rightarrow> pystr \<Rightarrow> pystr" where
  "genie_prompt page_title meta_desc =
     [10] @ lit ''    You are an SEO Genie with a fun, witty persona. '' @ [10]
     @ lit ''    The user has a webpage with title: '' @ [34] @ page_title @ [34, 32, 10]
     @ lit ''    and meta description: '' @ [34] @ meta_desc @ [34] @ lit ''. '' @ [10]
     @ lit ''    Give them 2-3 punchy suggestions to improve their SEO, in a friendly, genie-like tone.''
     @ [10] @ lit ''    ''"

definition static_advice :: pystr where
  "static_advice =
     lit ''1. Ensure your title is eye-catching and includes your main keyword.'' @ [10]
     @ lit ''2. Spice up your meta description with a strong call-to-action.'' @ [10]
     @ lit ''3. Add more engaging headings to structure your content effectively.''"

text \<open>
  The \<open>try\<close> block (lines 130 to 136): the call of the service, then \<open>choices[0]\<close>, which
  raises \<open>IndexError\<close> on an empty list. \<open>Inl\<close> is an exception that reaches the handler.
\<close>

definition genie_try ::
  "unicode_tables \<Rightarrow> (pystr \<Rightarrow> pystr + pystr list) \<Rightarrow> pystr \<Rightarrow> py_error + pystr" where
  "genie_try U create prompt =
     (case create prompt of
        Inl e \<Rightarrow> Inl (LibraryError e)
      | Inr choices \<Rightarrow>
          (case choices of
             [] \<Rightarrow> Inl IndexError
           | choice # _ \<Rightarrow> Inr (py_strip U choice)))"

definition call_seo_genie ::
  "unicode_tables \<Rightarrow> (pystr \<Rightarrow> pystr + pystr list) \<Rightarrow> pystr \<Rightarrow> pystr \<Rightarrow> st_event list \<times> pystr" where
  "call_seo_genie U create page_title meta_desc =
     (let prompt = genie_prompt page_title meta_desc
      in (case genie_try U create prompt of
            Inr advice \<Rightarrow> ([], advice)
          | Inl e \<Rightarrow>
              ([St_warning
                  (lit ''OpenAI API error or missing API key. Showing static advice instead.'')],
               static_advice)))"

section \<open>Orchestration\<close>

text \<open>
  One site's analysis: the block under \<open>if url1:\<close> (lines 159 to 184), and the block under
  \<open>if url2:\<close> (lines 186 to 210), which differs in its two headings. The result is the
  events of the block and either the exception that ended it or the local variable
  \<open>score1\<close> (\<open>score2\<close>): \<open>None\<close> when the block never assigned it.
\<close>

definition site_block ::
  "unicode_tables \<Rightarrow> services \<Rightarrow> pystr \<Rightarrow> pystr \<Rightarrow> pystr
     \<Rightarrow> st_event list \<times> (py_error + int option)" where
  "site_block U S heading advice_heading url =
     (if url \<noteq> [] then
        (let (fetch_events, fetched) = fetch_html (requests_get S) url;
             events = [St_subheader heading] @ fetch_events
         in (case fetched of
               None \<Rightarrow> (events, Inr None)
             | Some html \<Rightarrow>
                 if html \<noteq> [] then
                   (let (title, desc, hd_map, texts) = extract_onpage_data (parse_html S) html
                    in (case calculate_seo_score title desc hd_map of
                          Inl e \<Rightarrow> (events, Inl e)
                        | Inr score \<Rightarrow>
                            (let events = events
                                   @ [St_markdown (lit ''**Title:** '' @ title),
                                      St_markdown (lit ''**Meta Description:** '' @ desc)]
                             in (case subscript hd_map (lit ''h1'') of
                                   Inl e \<Rightarrow> (events, Inl e)
                                 | Inr h1 \<Rightarrow>
                                     (let events = events
                                            @ [St_markdown_list (lit ''**H1 Tags:** '') h1,
                                               St_metric (lit ''SEO Health Score'') score (lit ''/60''),
                                               St_progress score 60,
                                               St_markdown (lit ''### Keyword Density'')]
                                      in (case wordcloud_generate S texts of
                                            Inl e \<Rightarrow> (events, Inl (LibraryError e))
                                          | Inr _ \<Rightarrow>
                                              (let top_keywords = get_top_keywords U texts 10;
                                                   (genie_events, suggestions) =
                                                      call_seo_genie U (openai_create S) title desc
                                               in (events
                                                   @ [St_pyplot texts,
                                                      St_write_list (lit ''Top Keywords (approx.):'')
                                                        top_keywords,
                                                      St_markdown advice_heading]
                                                   @ genie_events @ [St_info suggestions],
                                                   Inr (Some score)))))))))
                 else (events, Inr None)))
      else ([], Inr None))"

text \<open>
  The comparison (lines 212 to 221). Reading a local variable that no statement assigned
  raises \<open>UnboundLocalError\<close>; the title of the summary is rendered before the difference
  is computed.
\<close>

definition comparison_summary ::
  "pystr \<Rightarrow> pystr \<Rightarrow> int option \<Rightarrow> int option \<Rightarrow> st_event list \<times> py_error option" where
  "comparison_summary url1 url2 score1 score2 =
     (if url1 \<noteq> [] \<and> url2 \<noteq> [] then
        (let events = [St_title ([127881, 32] @ lit ''Comparison Summary'')]
         in (case score1 of
               None \<Rightarrow> (events, Some (UnboundLocalError ''score1''))
             | Some s1 \<Rightarrow>
                 (case score2 of
                    None \<Rightarrow> (events, Some (UnboundLocalError ''score2''))
                  | Some s2 \<Rightarrow>
                      (let diff_score = s1 - s2
                       in if diff_score > 0 then
                            (events @ [St_success (lit ''Your site leads by '' @ py_str_int diff_score
                                                   @ lit '' points!'')], None)
                          else if diff_score < 0 then
                            (events @ [St_warning (lit ''Competitor leads by ''
                                                   @ py_str_int (- diff_score) @ lit '' points!'')], None)
                          else
                            (events @ [St_info (lit ''It'' @ [8217]
                                 @ lit ''s a tie! Both sites have the same SEO Health Score.'')],
                             None)))))
      else ([], None))"

text \<open>
  \<open>main\<close>: the two URLs are the contents of the text inputs and \<open>analyze\<close> tells whether the
  button was pressed. An exception ends the run, so the events behind it are missing.
\<close>

definition main ::
  "unicode_tables \<Rightarrow> services \<Rightarrow> pystr \<Rightarrow> pystr \<Rightarrow> bool \<Rightarrow> st_event list \<times> py_error option" where
  "main U S url1 url2 analyze =
     (let events =
            [St_title ([128302, 32] @ lit ''SEO Genie: Magic On-Page Analysis & Comparison''),
             St_markdown (lit ''**Enter two websites below for a delightful SEO check and see how they compare.**'')];
          footer =
            [St_markdown (lit ''---''),
             St_write (lit ''**Pro Tip**: Fine-tune your content, meta tags, headings, and keep an eye on competitor strategies. Use the magic of the SEO Genie to stay ahead!'')]
      in if analyze then
           (case site_block U S (lit ''Your Site Analysis'')
                   (lit ''### SEO Genie'' @ [8217] @ lit ''s Recommendations'') url1 of
              (events1, Inl e) \<Rightarrow> (events @ events1, Some e)
            | (events1, Inr score1) \<Rightarrow>
                (case site_block U S (lit ''Competitor Site Analysis'')
                        (lit ''### SEO Genie'' @ [8217] @ lit ''s Competitor Tips'') url2 of
                   (events2, Inl e) \<Rightarrow> (events @ events1 @ events2, Some e)
                 | (events2, Inr score2) \<Rightarrow>
                     (case comparison_summary url1 url2 score1 score2 of
                        (events3, Some e) \<Rightarrow> (events @ events1 @ events2 @ events3, Some e)
                      | (events3, None) \<Rightarrow>
                          (events @ events1 @ events2 @ events3 @ footer, None))))
         else (events @ footer, None))"

text \<open>A run in which the first page is not found and the second is.\<close>

definition sample_services :: services where
  "sample_services =
     \<lparr>requests_get =
        (\<lambda>url. if url = lit ''https://example.com''
               then Inr \<lparr>status_code = 404, body = lit ''Not Found''\<rparr>
               else Inr \<lparr>status_code = 200, body = lit ''<h1>Shop</h1> cat cat dog''\<rparr>),
      parse_html =
        (\<lambda>html. \<lparr>title_tag = [], meta_desc_content = [],
                  find_all_texts = (\<lambda>h. if h = lit ''h1'' then [lit ''Shop''] else []),
                  visible_texts = lit ''Shop cat cat dog''\<rparr>),
      openai_create = (\<lambda>prompt. Inl (lit ''No API key provided.'')),
      wordcloud_generate = (\<lambda>body_text. Inr ())\<rparr>"

section \<open>Properties of the extractor's headings\<close>

lemma collect_headers_dom:
  "dom (collect_headers find_all hs hd_map) = dom hd_map \<union> set hs"
  by (induction hs arbitrary: hd_map) auto

lemma extract_headers_dom:
  "dom (extract_headers find_all) = {lit ''h1'', lit ''h2'', lit ''h3'', lit ''h4''}"
  by (auto simp: extract_headers_def collect_headers_dom)

lemma extract_headers_keys:
  "\<exists>h1 h2 h3. extract_headers find_all (lit ''h1'') = Some h1
     \<and> extract_headers find_all (lit ''h2'') = Some h2
     \<and> extract_headers find_all (lit ''h3'') = Some h3"
proof -
  have "lit ''h1'' \<in> dom (extract_headers find_all)" "lit ''h2'' \<in> dom (extract_headers find_all)"
    "lit ''h3'' \<in> dom (extract_headers find_all)"
    by (simp_all add: extract_headers_dom)
  then show ?thesis by blast
qed

lemma extract_headers_lookup:
  "extract_headers find_all (lit ''h1'') = Some (find_all (lit ''h1''))"
  "extract_headers find_all (lit ''h2'') = Some (find_all (lit ''h2''))"
  "extract_headers find_all (lit ''h3'') = Some (find_all (lit ''h3''))"
  by (simp_all add: extract_headers_def lit_def)

section \<open>Properties of the scorer\<close>

text \<open>
  The scorer reads \<open>headers['h1']\<close>, \<open>headers['h2']\<close> and \<open>headers['h3']\<close>, and a dictionary
  without one of them makes it raise \<open>KeyError\<close>. The headings of the data model hold all
  four levels, as do the headings that the extractor builds (\<open>extract_headers_lookup\<close>).
  The theorems below are stated for every dictionary with the three keys.
\<close>

lemma score_before_cap_eq:
  assumes "hd_map (lit ''h1'') = Some h1" and "hd_map (lit ''h2'') = Some h2"
    and "hd_map (lit ''h3'') = Some h3"
  shows "score_before_cap title meta_desc hd_map =
     Inr (title_points title + desc_points meta_desc + (if 1 \<le> length h1 then 20 else 0)
          + (if 1 \<le> length h2 then 10 else 0) + (if 2 \<le> length h3 then 10 else 0))"
  using assms by (cases h1) (simp_all add: score_before_cap_def subscript_def Let_def)

lemma calculate_seo_score_missing_h1:
  "hd_map (lit ''h1'') = None \<Longrightarrow>
   calculate_seo_score title meta_desc hd_map = Inl (KeyError (lit ''h1''))"
  by (simp add: calculate_seo_score_def score_before_cap_def subscript_def)

lemma title_points_bands:
  "title_points title =
     (if length title \<in> {50..60} then 20
      else if length title \<in> {30..49} \<union> {61..70} then 10 else 5)"
  by (auto simp: title_points_def)

lemma desc_points_bands:
  "desc_points meta_desc =
     (if length meta_desc \<in> {120..160} then 20
      else if length meta_desc \<in> {80..119} \<union> {161..200} then 10 else 5)"
  by (auto simp: desc_points_def)

lemma title_points_bounds: "5 \<le> title_points title \<and> title_points title \<le> 20"
  by (simp add: title_points_def)

lemma desc_points_bounds: "5 \<le> desc_points meta_desc \<and> desc_points meta_desc \<le> 20"
  by (simp add: desc_points_def)

lemma sample_headers_simps:
  "sample_headers (lit ''h1'') = Some [lit ''Welcome'']"
  "sample_headers (lit ''h2'') = Some [lit ''About'']"
  "sample_headers (lit ''h3'') = Some [lit ''Team'', lit ''Contact'']"
  by (simp_all add: sample_headers_def lit_def)

lemma empty_headers_simps:
  "empty_headers (lit ''h1'') = Some []"
  "empty_headers (lit ''h2'') = Some []"
  "empty_headers (lit ''h3'') = Some []"
  by (simp_all add: empty_headers_def lit_def)

text \<open>
  C1. For every title, description and headings, the score is the sum of the points of the
  table, capped at 60: a title of 50 to 60 characters gives 20, of 30 to 49 or 61 to 70
  gives 10, any other 5; a description of 120 to 160 characters gives 20, of 80 to 119 or
  161 to 200 gives 10, any other 5; one h1 or more gives 20, none gives 0; one h2 or more
  gives 10; two h3 or more give 10. This holds for every dictionary with the three keys,
  and so for the headings that the extractor builds, whatever the parser finds. At the
  boundaries, a title of length 49, 50, 60, 61, 70, 71 gets 10, 20, 20, 10, 10, 5, and a
  description of length 119, 120, 160, 161, 200, 201 gets 10, 20, 20, 10, 10, 5.
\<close>

theorem calculate_seo_score_table:
  assumes "hd_map (lit ''h1'') = Some h1" and "hd_map (lit ''h2'') = Some h2"
    and "hd_map (lit ''h3'') = Some h3"
  shows "title_points title =
        (if length title \<in> {50..60} then 20
         else if length title \<in> {30..49} \<union> {61..70} then 10 else 5)
    \<and> desc_points meta_desc =
        (if length meta_desc \<in> {120..160} then 20
         else if length meta_desc \<in> {80..119} \<union> {161..200} then 10 else 5)
    \<and> calculate_seo_score title meta_desc hd_map =
        Inr (min (title_points title + desc_points meta_desc
                  + (if length h1 \<ge> 1 then 20 else 0)
                  + (if length h2 \<ge> 1 then 10 else 0)
                  + (if length h3 \<ge> 2 then 10 else 0)) 60)
    \<and> calculate_seo_score title meta_desc (extract_headers find_all) =
        Inr (min (title_points title + desc_points meta_desc
                  + (if length (find_all (lit ''h1'')) \<ge> 1 then 20 else 0)
                  + (if length (find_all (lit ''h2'')) \<ge> 1 then 10 else 0)
                  + (if length (find_all (lit ''h3'')) \<ge> 2 then 10 else 0)) 60)
    \<and> (length title = 49 \<longrightarrow> title_points title = 10)
    \<and> (length title = 50 \<longrightarrow> title_points title = 20)
    \<and> (length title = 60 \<longrightarrow> title_points title = 20)
    \<and> (length title = 61 \<longrightarrow> title_points title = 10)
    \<and> (length title = 70 \<longrightarrow> title_points title = 10)
    \<and> (length title = 71 \<longrightarrow> title_points title = 5)
    \<and> (length meta_desc = 119 \<longrightarrow> desc_points meta_desc = 10)
    \<and> (length meta_desc = 120 \<longrightarrow> desc_points meta_desc = 20)
    \<and> (length meta_desc = 160 \<longrightarrow> desc_points meta_desc = 20)
    \<and> (length meta_desc = 161 \<longrightarrow> desc_points meta_desc = 10)
    \<and> (length meta_desc = 200 \<longrightarrow> desc_points meta_desc = 10)
    \<and> (length meta_desc = 201 \<longrightarrow> desc_points meta_desc = 5)"
proof -
  have "calculate_seo_score title meta_desc hd_map =
      Inr (min (title_points title + desc_points meta_desc
                + (if length h1 \<ge> 1 then 20 else 0)
                + (if length h2 \<ge> 1 then 10 else 0)
                + (if length h3 \<ge> 2 then 10 else 0)) 60)"
    by (simp add: calculate_seo_score_def score_before_cap_eq [OF assms])
  moreover have "calculate_seo_score title meta_desc (extract_headers find_all) =
      Inr (min (title_points title + desc_points meta_desc
                + (if length (find_all (lit ''h1'')) \<ge> 1 then 20 else 0)
                + (if length (find_all (lit ''h2'')) \<ge> 1 then 10 else 0)
                + (if length (find_all (lit ''h3'')) \<ge> 2 then 10 else 0)) 60)"
    by (simp add: calculate_seo_score_def score_before_cap_eq [OF extract_headers_lookup])
  moreover have "length title = 49 \<longrightarrow> title_points title = 10"
    "length title = 50 \<longrightarrow> title_points title = 20"
    "length title = 60 \<longrightarrow> title_points title = 20"
    "length title = 61 \<longrightarrow> title_points title = 10"
    "length title = 70 \<longrightarrow> title_points title = 10"
    "length title = 71 \<longrightarrow> title_points title = 5"
    by (simp_all add: title_points_def)
  moreover have "length meta_desc = 119 \<longrightarrow> desc_points meta_desc = 10"
    "length meta_desc = 120 \<longrightarrow> desc_points meta_desc = 20"
    "length meta_desc = 160 \<longrightarrow> desc_points meta_desc = 20"
    "length meta_desc = 161 \<longrightarrow> desc_points meta_desc = 10"
    "length meta_desc = 200 \<longrightarrow> desc_points meta_desc = 10"
    "length meta_desc = 201 \<longrightarrow> desc_points meta_desc = 5"
    by (simp_all add: desc_points_def)
  ultimately show ?thesis
    using title_points_bands [of title] desc_points_bands [of meta_desc] by blast
qed

theorem calculate_seo_score_table_witness:
  "sample_headers (lit ''h1'') = Some [lit ''Welcome'']
   \<and> sample_headers (lit ''h2'') = Some [lit ''About'']
   \<and> sample_headers (lit ''h3'') = Some [lit ''Team'', lit ''Contact'']
   \<and> calculate_seo_score (replicate 55 97) (replicate 140 97) sample_headers = Inr 60
   \<and> calculate_seo_score (replicate 49 97) (replicate 119 97) sample_headers = Inr 60
   \<and> title_points (replicate 49 97) = 10 \<and> desc_points (replicate 119 97) = 10
   \<and> title_points (replicate 50 97) = 20 \<and> desc_points (replicate 120 97) = 20
   \<and> title_points (replicate 60 97) = 20 \<and> desc_points (replicate 160 97) = 20
   \<and> title_points (replicate 61 97) = 10 \<and> desc_points (replicate 161 97) = 10
   \<and> title_points (replicate 70 97) = 10 \<and> desc_points (replicate 200 97) = 10
   \<and> title_points (replicate 71 97) = 5 \<and> desc_points (replicate 201 97) = 5"
  using
    calculate_seo_score_table [OF sample_headers_simps,
      where title = "replicate 55 97" and meta_desc = "replicate 140 97"]
    calculate_seo_score_table [OF sample_headers_simps,
      where title = "replicate 49 97" and meta_desc = "replicate 119 97"]
    calculate_seo_score_table [OF sample_headers_simps,
      where title = "replicate 50 97" and meta_desc = "replicate 120 97"]
    calculate_seo_score_table [OF sample_headers_simps,
      where title = "replicate 60 97" and meta_desc = "replicate 160 97"]
    calculate_seo_score_table [OF sample_headers_simps,
      where title = "replicate 61 97" and meta_desc = "replicate 161 97"]
    calculate_seo_score_table [OF sample_headers_simps,
      where title = "replicate 70 97" and meta_desc = "replicate 200 97"]
    calculate_seo_score_table [OF sample_headers_simps,
      where title = "replicate 71 97" and meta_desc = "replicate 201 97"]
  by (simp add: sample_headers_simps)

text \<open>
  C2. For every title, description and headings, the scorer returns an integer between 0
  and 60: for every dictionary with the three keys, and so for the headings that the
  extractor builds, whatever the parser finds.
\<close>

theorem calculate_seo_score_range:
  assumes "hd_map (lit ''h1'') = Some h1" and "hd_map (lit ''h2'') = Some h2"
    and "hd_map (lit ''h3'') = Some h3"
  shows "(\<exists>s. calculate_seo_score title meta_desc hd_map = Inr s \<and> 0 \<le> s \<and> s \<le> 60)
    \<and> (\<exists>s. calculate_seo_score title meta_desc (extract_headers find_all) = Inr s
           \<and> 0 \<le> s \<and> s \<le> 60)"
proof -
  have "5 \<le> title_points title" "5 \<le> desc_points meta_desc"
    using title_points_bounds desc_points_bounds by simp_all
  then show ?thesis
    by (simp add: calculate_seo_score_def score_before_cap_eq [OF assms]
        score_before_cap_eq [OF extract_headers_lookup])
qed

theorem calculate_seo_score_range_witness:
  "sample_headers (lit ''h1'') = Some [lit ''Welcome'']
   \<and> sample_headers (lit ''h2'') = Some [lit ''About'']
   \<and> sample_headers (lit ''h3'') = Some [lit ''Team'', lit ''Contact'']
   \<and> (\<exists>s. calculate_seo_score (lit ''Home'') (lit ''A page'') sample_headers = Inr s
          \<and> 0 \<le> s \<and> s \<le> 60)"
  using calculate_seo_score_range [OF sample_headers_simps,
      where title = "lit ''Home''" and meta_desc = "lit ''A page''"]
  by (simp add: sample_headers_simps)

text \<open>
  C3, as the code has it. The cap is not redundant: the sum of the sub-scores lies between
  10 and 80, and the scorer returns the smaller of that sum and 60. For a title of length
  55, a description of length 140, one h1, one h2 and two h3 the sub-scores sum as
  20 + 20 + 20 + 10 + 10 = 80, which the cap reduces to 60.
\<close>

theorem cap_is_effective:
  assumes "hd_map (lit ''h1'') = Some h1" and "hd_map (lit ''h2'') = Some h2"
    and "hd_map (lit ''h3'') = Some h3"
  shows "\<exists>s. score_before_cap title meta_desc hd_map = Inr s \<and> 10 \<le> s \<and> s \<le> 80
      \<and> calculate_seo_score title meta_desc hd_map = Inr (min s 60)
      \<and> (length title = 55 \<and> length meta_desc = 140 \<and> length h1 = 1 \<and> length h2 = 1
           \<and> length h3 = 2
         \<longrightarrow> s = 20 + 20 + 20 + 10 + 10 \<and> s = 80
             \<and> calculate_seo_score title meta_desc hd_map = Inr 60)"
proof -
  have "5 \<le> title_points title" "5 \<le> desc_points meta_desc"
    "title_points title \<le> 20" "desc_points meta_desc \<le> 20"
    using title_points_bounds desc_points_bounds by simp_all
  moreover have "length title = 55 \<longrightarrow> title_points title = 20"
    by (simp add: title_points_def)
  moreover have "length meta_desc = 140 \<longrightarrow> desc_points meta_desc = 20"
    by (simp add: desc_points_def)
  ultimately show ?thesis
    by (simp add: calculate_seo_score_def score_before_cap_eq [OF assms])
qed

theorem cap_is_effective_witness:
  "sample_headers (lit ''h1'') = Some [lit ''Welcome'']
   \<and> sample_headers (lit ''h2'') = Some [lit ''About'']
   \<and> sample_headers (lit ''h3'') = Some [lit ''Team'', lit ''Contact'']
   \<and> score_before_cap (replicate 55 97) (replicate 140 97) sample_headers = Inr 80
   \<and> calculate_seo_score (replicate 55 97) (replicate 140 97) sample_headers = Inr 60"
  using cap_is_effective [OF sample_headers_simps, of "replicate 55 97" "replicate 140 97"]
  by (auto simp add: sample_headers_simps)

text \<open>
  C3, as the specification states it, fails: for a title of length 55, a description of
  length 140, one h1, one h2 and two h3 the sum before the cap is 80, which is neither 60
  nor at most 60.
\<close>

theorem cap_redundant_counterexample:
  "score_before_cap (replicate 55 97) (replicate 140 97) sample_headers = Inr 80
   \<and> score_before_cap (replicate 55 97) (replicate 140 97) sample_headers \<noteq> Inr 60
   \<and> length (replicate 55 (97::nat)) = 55 \<and> length (replicate 140 (97::nat)) = 140
   \<and> sample_headers (lit ''h1'') = Some [lit ''Welcome'']
   \<and> sample_headers (lit ''h2'') = Some [lit ''About'']
   \<and> sample_headers (lit ''h3'') = Some [lit ''Team'', lit ''Contact'']"
  by (simp add: score_before_cap_eq [OF sample_headers_simps] sample_headers_simps
      title_points_def desc_points_def)




text \<open>
  C10. The title contributes at least 5 and the description at least 5, so for every title,
  description and headings the scorer returns a value between 10 and 60 (for every
  dictionary with the three keys, and so for the headings that the extractor builds); the
  empty page scores exactly 10.
\<close>

theorem calculate_seo_score_lower_bound:
  assumes "hd_map (lit ''h1'') = Some h1" and "hd_map (lit ''h2'') = Some h2"
    and "hd_map (lit ''h3'') = Some h3"
  shows "5 \<le> title_points title \<and> 5 \<le> desc_points meta_desc
    \<and> (\<exists>s. calculate_seo_score title meta_desc hd_map = Inr s \<and> 10 \<le> s \<and> s \<le> 60)
    \<and> (\<exists>s. calculate_seo_score title meta_desc (extract_headers find_all) = Inr s
           \<and> 10 \<le> s \<and> s \<le> 60)
    \<and> calculate_seo_score [] [] empty_headers = Inr 10"
proof -
  have b: "5 \<le> title_points title" "5 \<le> desc_points meta_desc"
    using title_points_bounds desc_points_bounds by simp_all
  then have "\<exists>s. calculate_seo_score title meta_desc hd_map = Inr s \<and> 10 \<le> s \<and> s \<le> 60"
    by (simp add: calculate_seo_score_def score_before_cap_eq [OF assms])
  moreover from b have "\<exists>s. calculate_seo_score title meta_desc (extract_headers find_all) = Inr s
      \<and> 10 \<le> s \<and> s \<le> 60"
    by (simp add: calculate_seo_score_def score_before_cap_eq [OF extract_headers_lookup])
  moreover have "calculate_seo_score [] [] empty_headers = Inr 10"
    by (simp add: calculate_seo_score_def score_before_cap_eq [OF empty_headers_simps]
        title_points_def desc_points_def)
  ultimately show ?thesis using b by simp
qed

theorem calculate_seo_score_lower_bound_witness:
  "sample_headers (lit ''h1'') = Some [lit ''Welcome'']
   \<and> sample_headers (lit ''h2'') = Some [lit ''About'']
   \<and> sample_headers (lit ''h3'') = Some [lit ''Team'', lit ''Contact'']
   \<and> 5 \<le> title_points (lit ''Home'') \<and> 5 \<le> desc_points (lit ''A page'')
   \<and> (\<exists>s. calculate_seo_score (lit ''Home'') (lit ''A page'') sample_headers = Inr s
          \<and> 10 \<le> s \<and> s \<le> 60)"
  using calculate_seo_score_lower_bound [OF sample_headers_simps,
      where title = "lit ''Home''" and meta_desc = "lit ''A page''"]
  by (simp add: sample_headers_simps)

section \<open>Properties of the keyword ranking\<close>

lemma count_loop_snoc:
  "count_loop (ws @ [w]) freq =
     AList.update w (dict_get (count_loop ws freq) w 0 + 1) (count_loop ws freq)"
  by (induction ws arbitrary: freq) simp_all

lemma count_loop_keys: "fst ` set (count_loop ws []) = set ws"
  by (induction ws rule: rev_induct) (auto simp: count_loop_snoc dom_update)

lemma count_loop_distinct: "distinct (map fst (count_loop ws []))"
  by (induction ws rule: rev_induct) (simp_all add: count_loop_snoc distinct_update)

lemma count_loop_counts:
  "map_of (count_loop ws []) w = (if w \<in> set ws then Some (int (count_list ws w)) else None)"
proof (induction ws rule: rev_induct)
  case Nil
  then show ?case by simp
next
  case (snoc x xs)
  then show ?case
    by (auto simp: count_loop_snoc update_conv' dict_get_def)
qed

lemma first_index_less: "x \<in> set xs \<Longrightarrow> first_index xs x < length xs"
  by (induction xs) auto

lemma first_index_append_in: "x \<in> set xs \<Longrightarrow> first_index (xs @ ys) x = first_index xs x"
  by (induction xs) auto

lemma first_index_append_notin:
  "x \<notin> set xs \<Longrightarrow> first_index (xs @ ys) x = length xs + first_index ys x"
  by (induction xs) auto



lemma count_loop_order:
  "sorted_wrt (\<lambda>a b. first_index ws a < first_index ws b) (map fst (count_loop ws []))"
proof (induction ws rule: rev_induct)
  case Nil
  then show ?case by simp
next
  case (snoc w ws)
  let ?F = "count_loop ws []"
  let ?v = "dict_get ?F w 0 + 1"
  have keys: "fst ` set ?F = set ws"
    by (rule count_loop_keys)
  have old: "sorted_wrt (\<lambda>a b. first_index (ws @ [w]) a < first_index (ws @ [w]) b) (map fst ?F)"
    using snoc.IH
    by (rule sorted_wrt_mono_rel [rotated]) (simp add: keys first_index_append_in)
  show ?case
  proof (cases "w \<in> set ws")
    case True
    then show ?thesis using old keys by (simp add: count_loop_snoc update_keys)
  next
    case False
    have "\<forall>a \<in> set ws. first_index (ws @ [w]) a < first_index (ws @ [w]) w"
      using False by (simp add: first_index_append_in first_index_append_notin first_index_less)
    then show ?thesis
      using old keys False by (simp add: count_loop_snoc update_keys sorted_wrt_append)
  qed
qed




lemma sorted_wrt_filter_iff:
  "sorted_wrt R (filter P xs) = sorted_wrt (\<lambda>x y. P x \<and> P y \<longrightarrow> R x y) xs"
  by (induction xs) auto

lemma sorted_reverse_desc: "sorted_wrt (\<lambda>p q. key p \<ge> key q) (sorted_reverse key xs)"
proof -
  have "sorted (map key (sort_key key (rev xs)))" by (rule sorted_sort_key)
  then have "sorted_wrt (\<lambda>a b. key a \<le> key b) (sort_key key (rev xs))"
    by (simp only: sorted_wrt_map)
  then show ?thesis by (simp only: sorted_reverse_def sorted_wrt_rev)
qed

lemma sorted_reverse_stable:
  "filter (\<lambda>y. key y = k) (sorted_reverse key xs) = filter (\<lambda>y. key y = k) xs"
proof -
  have "filter (\<lambda>y. key y = k) (sort_key key (rev xs)) = filter (\<lambda>y. key y = k) (rev xs)"
    by (rule sort_key_stable)
  then show ?thesis
    by (simp only: sorted_reverse_def rev_filter [symmetric] rev_rev_ident)
qed

lemma sorted_reverse_mset: "mset (sorted_reverse key xs) = mset xs"
  by (simp add: sorted_reverse_def)

lemma sorted_reverse_set: "set (sorted_reverse key xs) = set xs"
  by (simp add: sorted_reverse_def)

lemma sorted_reverse_length: "length (sorted_reverse key xs) = length xs"
  by (simp add: sorted_reverse_def)


lemma sorted_reverse_distinct: "distinct (map f (sorted_reverse key xs)) = distinct (map f xs)"
proof -
  have "mset (map f (sorted_reverse key xs)) = mset (map f xs)"
    by (simp add: sorted_reverse_mset)
  then show ?thesis by (rule mset_eq_imp_distinct_iff)
qed

lemma sorted_reverse_ranked:
  assumes "sorted_wrt R xs"
  shows "sorted_wrt (\<lambda>p q. key p > key q \<or> (key p = key q \<and> R p q)) (sorted_reverse key xs)"
proof -
  let ?ys = "sorted_reverse key xs"
  have desc: "sorted_wrt (\<lambda>p q. key p \<ge> key q) ?ys" by (rule sorted_reverse_desc)
  have ties: "sorted_wrt (\<lambda>x y. key x = k \<and> key y = k \<longrightarrow> R x y) ?ys" for k
  proof -
    have "sorted_wrt R (filter (\<lambda>y. key y = k) xs)"
      using assms by (rule sorted_wrt_filter)
    then have "sorted_wrt R (filter (\<lambda>y. key y = k) ?ys)"
      by (simp only: sorted_reverse_stable)
    then show ?thesis
      by (simp only: sorted_wrt_filter_iff)
  qed
  show ?thesis
    unfolding sorted_wrt_iff_nth_less
  proof (intro allI impI)
    fix i j assume ij: "i < j" "j < length ?ys"
    have "key (?ys ! i) \<ge> key (?ys ! j)"
      using desc ij by (simp add: sorted_wrt_iff_nth_less)
    moreover have "key (?ys ! i) = key (?ys ! j) \<longrightarrow> R (?ys ! i) (?ys ! j)"
      using ties [of "key (?ys ! j)"] ij by (simp add: sorted_wrt_iff_nth_less)
    ultimately show "key (?ys ! i) > key (?ys ! j)
        \<or> (key (?ys ! i) = key (?ys ! j) \<and> R (?ys ! i) (?ys ! j))"
      by auto
  qed
qed


lemma slice_to_nonneg: "0 \<le> n \<Longrightarrow> slice_to xs n = take (nat n) xs"
  by (simp add: slice_to_def)

lemma ranking_sorted:
  "sorted_wrt (ranks_before ws) (sorted_reverse snd (count_loop ws []))"
proof -
  have "sorted_wrt (\<lambda>p q. first_index ws (fst p) < first_index ws (fst q)) (count_loop ws [])"
    using count_loop_order [of ws] by (simp only: sorted_wrt_map)
  then have "sorted_wrt (\<lambda>p q. snd p > snd q
        \<or> (snd p = snd q \<and> first_index ws (fst p) < first_index ws (fst q)))
      (sorted_reverse snd (count_loop ws []))"
    by (rule sorted_reverse_ranked)
  then show ?thesis
    by (rule sorted_wrt_mono_rel [rotated]) (simp add: ranks_before_def)
qed

lemma ranking_counts:
  assumes "p \<in> set (sorted_reverse snd (count_loop ws []))"
  shows "snd p = int (count_list ws (fst p))"
proof -
  from assms have "(fst p, snd p) \<in> set (count_loop ws [])"
    by (simp add: sorted_reverse_set)
  then have "map_of (count_loop ws []) (fst p) = Some (snd p)"
    using count_loop_distinct [of ws] by simp
  then show ?thesis
    by (simp add: count_loop_counts split: if_splits)
qed

lemma ranking_length: "length (sorted_reverse snd (count_loop ws [])) = card (set ws)"
proof -
  have "length (count_loop ws []) = length (map fst (count_loop ws []))" by simp
  also have "\<dots> = card (set (map fst (count_loop ws [])))"
    using count_loop_distinct [of ws] by (simp only: distinct_card)
  also have "\<dots> = card (set ws)"
    using count_loop_keys [of ws] by simp
  finally show ?thesis by (simp add: sorted_reverse_length)
qed

text \<open>
  C5. For every body text and every bound \<open>top_n \<ge> 0\<close>, \<open>get_top_keywords\<close> returns at most
  \<open>top_n\<close> pairs, sorted by count descending with ties broken by the order in which the
  words first occur in the text. The pairs are the first \<open>top_n\<close> of the ranking of all
  distinct words of the text, each with the number of its occurrences. On
  \<open>"cat cat dog dog dog bird"\<close> with bound 2 the result is \<open>[("dog", 3), ("cat", 2)]\<close>.
\<close>

theorem get_top_keywords_ranked:
  assumes "0 \<le> top_n"
  shows "length (get_top_keywords U body_text top_n) \<le> nat top_n
    \<and> length (get_top_keywords U body_text top_n) = min (nat top_n) (card (set (tokenize U body_text)))
    \<and> sorted_wrt (ranks_before (tokenize U body_text)) (get_top_keywords U body_text top_n)
    \<and> (\<exists>rest.
          sorted_wrt (ranks_before (tokenize U body_text)) (get_top_keywords U body_text top_n @ rest)
        \<and> distinct (map fst (get_top_keywords U body_text top_n @ rest))
        \<and> fst ` set (get_top_keywords U body_text top_n @ rest) = set (tokenize U body_text)
        \<and> (\<forall>p \<in> set (get_top_keywords U body_text top_n @ rest).
              snd p = int (count_list (tokenize U body_text) (fst p))))
    \<and> get_top_keywords no_unicode (lit ''cat cat dog dog dog bird'') 2
        = [(lit ''dog'', 3), (lit ''cat'', 2)]"
proof -
  let ?ws = "tokenize U body_text"
  let ?Y = "sorted_reverse snd (count_loop ?ws [])"
  let ?res = "get_top_keywords U body_text top_n"
  have res: "?res = take (nat top_n) ?Y"
    using assms by (simp add: get_top_keywords_def Let_def slice_to_nonneg)
  have split: "?res @ drop (nat top_n) ?Y = ?Y"
    by (simp add: res)
  have len: "length ?res = min (nat top_n) (card (set ?ws))"
    by (simp add: res ranking_length min.commute)
  have sorted_all: "sorted_wrt (ranks_before ?ws) ?Y"
    by (rule ranking_sorted)
  then have sorted_res: "sorted_wrt (ranks_before ?ws) ?res"
    unfolding res by (rule sorted_wrt_take)
  have dist: "distinct (map fst ?Y)"
    by (simp only: sorted_reverse_distinct count_loop_distinct)
  have keys: "fst ` set ?Y = set ?ws"
    by (simp only: sorted_reverse_set count_loop_keys)
  have counts: "\<forall>p \<in> set ?Y. snd p = int (count_list ?ws (fst p))"
    using ranking_counts by blast
  have full: "\<exists>rest. sorted_wrt (ranks_before ?ws) (?res @ rest)
        \<and> distinct (map fst (?res @ rest))
        \<and> fst ` set (?res @ rest) = set ?ws
        \<and> (\<forall>p \<in> set (?res @ rest). snd p = int (count_list ?ws (fst p)))"
  proof (intro exI conjI)
    show "sorted_wrt (ranks_before ?ws) (?res @ drop (nat top_n) ?Y)"
      using sorted_all by (simp only: split)
    show "distinct (map fst (?res @ drop (nat top_n) ?Y))"
      using dist by (simp only: split)
    show "fst ` set (?res @ drop (nat top_n) ?Y) = set ?ws"
      using keys by (simp only: split)
    show "\<forall>p \<in> set (?res @ drop (nat top_n) ?Y). snd p = int (count_list ?ws (fst p))"
      using counts by (simp only: split)
  qed
  have example: "get_top_keywords no_unicode (lit ''cat cat dog dog dog bird'') 2
        = [(lit ''dog'', 3), (lit ''cat'', 2)]"
    by code_simp
  from len sorted_res full example show ?thesis by simp
qed

theorem get_top_keywords_ranked_witness:
  "(0::int) \<le> 2
   \<and> length (get_top_keywords no_unicode (lit ''cat cat dog dog dog bird'') 2) \<le> nat 2
   \<and> sorted_wrt (ranks_before (tokenize no_unicode (lit ''cat cat dog dog dog bird'')))
        (get_top_keywords no_unicode (lit ''cat cat dog dog dog bird'') 2)
   \<and> get_top_keywords no_unicode (lit ''cat cat dog dog dog bird'') 2
        = [(lit ''dog'', 3), (lit ''cat'', 2)]"
proof -
  have h: "(0::int) \<le> 2" by simp
  show ?thesis
    using h get_top_keywords_ranked [OF h, of no_unicode "lit ''cat cat dog dog dog bird''"]
    by blast
qed

section \<open>Properties of the tokenization\<close>

lemma letter_is_word: "ascii_letter c \<Longrightarrow> word_char U c"
  by (auto simp: ascii_letter_def word_char_def)

lemma head_drop: "k < length s \<Longrightarrow> head (drop k s) = Some (s ! k)"
  by (simp add: head_def Cons_nth_drop_Suc [symmetric])

lemma letters_nth:
  "k < length (takeWhile ascii_letter s) \<Longrightarrow> ascii_letter (s ! k)"
  using nth_mem [of k "takeWhile ascii_letter s"] set_takeWhileD [of "s ! k" ascii_letter s]
  by (simp add: takeWhile_nth)

text \<open>Inside a run of letters there is no word boundary.\<close>

lemma no_boundary_inside:
  assumes "3 \<le> k" and "k < length (takeWhile ascii_letter s)"
  shows "\<not> boundary U (Some (s ! (k - 1))) (head (drop k s))"
proof -
  have "k < length s"
    using assms(2) length_takeWhile_le [of ascii_letter s] by simp
  then have "head (drop k s) = Some (s ! k)" by (rule head_drop)
  moreover have "ascii_letter (s ! k)" using assms(2) by (rule letters_nth)
  moreover have "ascii_letter (s ! (k - 1))" using assms by (intro letters_nth) simp
  ultimately show ?thesis
    by (simp add: boundary_def word_at_def letter_is_word)
qed

lemma find_longest:
  assumes "\<And>k. 3 \<le> k \<Longrightarrow> k < n \<Longrightarrow> \<not> P k"
  shows "find P (rev [3 ..< Suc n]) = (if 3 \<le> n \<and> P n then Some n else None)"
proof (cases "3 \<le> n")
  case True
  have "find P (rev [3 ..< n]) = None"
    using assms by (simp add: find_None_iff)
  then show ?thesis using True by (simp add: upt_Suc_append)
next
  case False
  then show ?thesis by simp
qed

lemma match_here_eq:
  "match_here U prev s =
     (if boundary U prev (head s) \<and> 3 \<le> length (takeWhile ascii_letter s)
         \<and> \<not> word_at U (head (dropWhile ascii_letter s))
      then Some (length (takeWhile ascii_letter s)) else None)"
proof -
  let ?n = "length (takeWhile ascii_letter s)"
  let ?P = "\<lambda>k. boundary U (Some (s ! (k - 1))) (head (drop k s))"
  have longest: "find ?P (rev [3 ..< Suc ?n]) = (if 3 \<le> ?n \<and> ?P ?n then Some ?n else None)"
    by (rule find_longest) (rule no_boundary_inside)
  have last: "?P ?n = (\<not> word_at U (head (dropWhile ascii_letter s)))" if "3 \<le> ?n"
  proof -
    have "ascii_letter (s ! (?n - 1))" using that by (intro letters_nth) simp
    then show ?thesis
      by (simp add: boundary_def word_at_def letter_is_word dropWhile_eq_drop [symmetric])
  qed
  show ?thesis
    unfolding match_here_def longest using last by auto
qed

text \<open>A run of word characters that consists of letters is the run of letters, and conversely.\<close>

lemma takeWhile_letters_word:
  assumes "list_all ascii_letter (takeWhile (word_char U) s)"
  shows "takeWhile ascii_letter s = takeWhile (word_char U) s"
  using assms by (induction s) (auto simp: letter_is_word)

lemma takeWhile_word_letters:
  assumes "\<not> word_at U (head (dropWhile ascii_letter s))"
  shows "takeWhile (word_char U) s = takeWhile ascii_letter s"
  using assms by (induction s) (auto simp: letter_is_word head_def word_at_def split: if_splits)

lemma dropWhile_word_letters:
  assumes "\<not> word_at U (head (dropWhile ascii_letter s))"
  shows "dropWhile (word_char U) s = dropWhile ascii_letter s"
  using assms by (induction s) (auto simp: letter_is_word head_def word_at_def split: if_splits)

lemma head_dropWhile_word: "\<not> word_at U (head (dropWhile (word_char U) s))"
  by (induction s) (auto simp: head_def word_at_def)

lemma match_iff_word_ok:
  "(3 \<le> length (takeWhile ascii_letter s) \<and> \<not> word_at U (head (dropWhile ascii_letter s)))
   = word_ok (takeWhile (word_char U) s)"
proof
  assume a: "3 \<le> length (takeWhile ascii_letter s) \<and> \<not> word_at U (head (dropWhile ascii_letter s))"
  then have "takeWhile (word_char U) s = takeWhile ascii_letter s"
    by (simp add: takeWhile_word_letters)
  then show "word_ok (takeWhile (word_char U) s)"
    using a by (auto simp: word_ok_def list_all_iff dest: set_takeWhileD)
next
  assume b: "word_ok (takeWhile (word_char U) s)"
  then have eq: "takeWhile ascii_letter s = takeWhile (word_char U) s"
    by (simp add: word_ok_def takeWhile_letters_word)
  then have "dropWhile ascii_letter s = dropWhile (word_char U) s"
    by (simp add: dropWhile_eq_drop)
  then show "3 \<le> length (takeWhile ascii_letter s) \<and> \<not> word_at U (head (dropWhile ascii_letter s))"
    using b eq by (simp add: word_ok_def head_dropWhile_word)
qed


lemma match_here_word_ok:
  "match_here U prev s =
     (if boundary U prev (head s) \<and> word_ok (takeWhile (word_char U) s)
      then Some (length (takeWhile ascii_letter s)) else None)"
  using match_iff_word_ok [of s U] by (simp add: match_here_eq)

lemma findall_runs:
  "findall U prev s =
     filter word_ok (runs (word_char U) (if word_at U prev then dropWhile (word_char U) s else s))"
proof (induction U prev s rule: findall.induct)
  case (1 U prev)
  show ?case by simp
next
  case (2 U prev c cs)
  let ?s = "c # cs"
  let ?W = "word_char U"
  let ?n = "length (takeWhile ascii_letter ?s)"
  show ?case
  proof (cases "boundary U prev (head ?s) \<and> word_ok (takeWhile ?W ?s)")
    case True
    then have m: "match_here U prev ?s = Some ?n"
      unfolding match_here_word_ok by (simp only: simp_thms if_True)
    from True have ok: "word_ok (takeWhile ?W ?s)" by simp
    then have wc: "?W c" by (auto simp: word_ok_def split: if_splits)
    with True have np: "\<not> word_at U prev"
      by (simp add: boundary_def head_def word_at_def)
    have eq: "takeWhile ascii_letter ?s = takeWhile ?W ?s"
      using ok by (simp only: word_ok_def takeWhile_letters_word)
    have tk: "take ?n ?s = takeWhile ?W ?s"
      using takeWhile_eq_take [of ascii_letter ?s] eq by simp
    have dr: "drop ?n ?s = dropWhile ?W cs"
      using dropWhile_eq_drop [of ?W ?s] eq wc by simp
    have "findall U (Some (?s ! (?n - 1))) (drop ?n ?s)
        = filter word_ok (runs ?W (if word_at U (Some (?s ! (?n - 1)))
                                   then dropWhile ?W (drop ?n ?s) else drop ?n ?s))"
      by (rule "2.IH"(2) [OF m])
    then have rest: "findall U (Some (?s ! (?n - 1))) (drop ?n ?s)
        = filter word_ok (runs ?W (dropWhile ?W cs))"
      by (simp only: dr dropWhile_idem if_cancel)
    have lhs: "findall U prev ?s = takeWhile ?W ?s # filter word_ok (runs ?W (dropWhile ?W cs))"
      by (simp only: findall.simps m option.case tk rest)
    have "runs ?W ?s = takeWhile ?W ?s # runs ?W (dropWhile ?W cs)"
      using wc by simp
    then have rhs: "filter word_ok (runs ?W ?s)
        = takeWhile ?W ?s # filter word_ok (runs ?W (dropWhile ?W cs))"
      using ok by (simp only: filter.simps if_True)
    show ?thesis
      using np by (simp only: if_False lhs rhs)
  next
    case False
    then have m: "match_here U prev ?s = None"
      unfolding match_here_word_ok by (simp only: simp_thms if_False)
    have "findall U (Some c) cs
        = filter word_ok (runs ?W (if word_at U (Some c) then dropWhile ?W cs else cs))"
      by (rule "2.IH"(1) [OF m])
    then have step: "findall U prev ?s
        = filter word_ok (runs ?W (if ?W c then dropWhile ?W cs else cs))"
      by (simp only: findall.simps m option.case word_at_def)
    show ?thesis
    proof (cases "word_at U prev")
      case True
      then show ?thesis using step by simp
    next
      case np: False
      show ?thesis
      proof (cases "?W c")
        case True
        with np have "boundary U prev (head ?s)"
          by (simp add: boundary_def head_def word_at_def)
        with False have "\<not> word_ok (takeWhile ?W ?s)" by simp
        then show ?thesis using step np True by simp
      next
        case False
        then show ?thesis using step np by simp
      qed
    qed
  qed
qed

lemma py_lower_ascii: "list_all (\<lambda>c. c < 128) s \<Longrightarrow> py_lower U s = map ascii_lower s"
  by (simp add: py_lower_def)

text \<open>
  C4, as the code has it. For every body text, the tokens are exactly the maximal runs of
  word characters (letters, digits and the underscore, the class \<open>\w\<close>) of the lower-cased
  text that consist of ASCII letters only and are three or more characters long, from left
  to right. Only a non-word character separates; a run that holds a digit, an underscore
  or a non-ASCII letter is dropped whole. ASCII text is lower-cased character by character.
  Tokenizing \<open>"a1 bb ccc dd-ee"\<close> yields the one token \<open>"ccc"\<close>, with count 1.
\<close>

theorem tokenize_word_runs:
  "tokenize U body_text
     = filter (\<lambda>w. 3 \<le> length w \<and> list_all ascii_letter w)
         (runs (word_char U) (py_lower U body_text))
   \<and> (list_all (\<lambda>c. c < 128) body_text \<longrightarrow> py_lower U body_text = map ascii_lower body_text)
   \<and> tokenize no_unicode (lit ''a1 bb ccc dd-ee'') = [lit ''ccc'']
   \<and> get_top_keywords no_unicode (lit ''a1 bb ccc dd-ee'') 10 = [(lit ''ccc'', 1)]"
proof -
  have "word_ok = (\<lambda>w. 3 \<le> length w \<and> list_all ascii_letter w)"
    by (simp add: fun_eq_iff word_ok_def)
  moreover
  have "tokenize U body_text = filter word_ok (runs (word_char U) (py_lower U body_text))"
    by (simp add: tokenize_def findall_runs word_at_def)
  ultimately have "tokenize U body_text
     = filter (\<lambda>w. 3 \<le> length w \<and> list_all ascii_letter w)
         (runs (word_char U) (py_lower U body_text))"
    by simp
  moreover have "tokenize no_unicode (lit ''a1 bb ccc dd-ee'') = [lit ''ccc'']"
    by code_simp
  moreover have "get_top_keywords no_unicode (lit ''a1 bb ccc dd-ee'') 10 = [(lit ''ccc'', 1)]"
    by code_simp
  ultimately show ?thesis
    by (simp add: py_lower_ascii)
qed

theorem tokenize_word_runs_witness:
  "list_all (\<lambda>c. c < 128) (lit ''Abc1 DEF ghi'')
   \<and> py_lower no_unicode (lit ''Abc1 DEF ghi'') = map ascii_lower (lit ''Abc1 DEF ghi'')
   \<and> tokenize no_unicode (lit ''Abc1 DEF ghi'')
       = filter (\<lambda>w. 3 \<le> length w \<and> list_all ascii_letter w)
           (runs (word_char no_unicode) (py_lower no_unicode (lit ''Abc1 DEF ghi'')))"
proof -
  have h: "list_all (\<lambda>c. c < 128) (lit ''Abc1 DEF ghi'')"
    by (simp add: lit_def)
  show ?thesis
    using h tokenize_word_runs [of no_unicode "lit ''Abc1 DEF ghi''"] by blast
qed

text \<open>
  C4, as the specification states it, fails. In \<open>"abc1"\<close> the digit does not act as a
  separator: the run of letters \<open>"abc"\<close> is not a token. And \<open>"a1 bb ccc dd-ee"\<close> yields
  \<open>"ccc"\<close> alone, not \<open>"ccc"\<close>, \<open>"dd"\<close> and \<open>"ee"\<close>.
\<close>

theorem tokenize_counterexample:
  "tokenize no_unicode (lit ''abc1'') = []
   \<and> letter_runs no_unicode (lit ''abc1'') = [lit ''abc'']
   \<and> get_top_keywords no_unicode (lit ''a1 bb ccc dd-ee'') 10 = [(lit ''ccc'', 1)]
   \<and> get_top_keywords no_unicode (lit ''a1 bb ccc dd-ee'') 10
       \<noteq> [(lit ''ccc'', 1), (lit ''dd'', 1), (lit ''ee'', 1)]"
  by code_simp

section \<open>Properties of the fetcher\<close>

lemma fetch_html_request:
  "fetch_html get url =
     (case get (request_url url) of
        Inl e \<Rightarrow> ([St_error (lit ''Error fetching the URL: '' @ e)], None)
      | Inr r \<Rightarrow>
          if status_code r = 200 then ([], Some (body r))
          else ([St_warning (lit ''Could not retrieve the page. Check URL or status code.'')], None))"
  by (simp add: fetch_html_def Let_def)

lemma request_url_examples:
  "request_url (lit ''example.com'') = lit ''https://example.com''"
  "request_url (lit ''http://example.com'') = lit ''http://example.com''"
  by (simp_all add: request_url_def lit_def)

text \<open>
  C7, as the code has it. For every URL the fetcher returns without raising: it returns
  the response body exactly when the status code is 200; on every other status code, the
  other 2xx codes included, it emits a warning and returns the absence value; and when the
  request raises (a timeout, a DNS failure) it emits an error message and returns the
  absence value.
\<close>

theorem fetch_html_status_200:
  "(\<forall>r. get (request_url url) = Inr r \<and> status_code r = 200
        \<longrightarrow> fetch_html get url = ([], Some (body r)))
   \<and> (\<forall>r. get (request_url url) = Inr r \<and> status_code r \<noteq> 200
        \<longrightarrow> fetch_html get url
            = ([St_warning (lit ''Could not retrieve the page. Check URL or status code.'')], None))
   \<and> (\<forall>e. get (request_url url) = Inl e
        \<longrightarrow> fetch_html get url = ([St_error (lit ''Error fetching the URL: '' @ e)], None))
   \<and> (\<forall>html. snd (fetch_html get url) = Some html
        \<longleftrightarrow> (\<exists>r. get (request_url url) = Inr r \<and> status_code r = 200 \<and> body r = html))"
  by (auto simp: fetch_html_request split: sum.splits)

theorem fetch_html_status_200_witness:
  "fetch_html (\<lambda>u. Inr \<lparr>status_code = 200, body = lit ''<title>Example</title>''\<rparr>) (lit ''example.com'')
     = ([], Some (lit ''<title>Example</title>''))
   \<and> fetch_html (\<lambda>u. Inr \<lparr>status_code = 404, body = lit ''Not Found''\<rparr>) (lit ''example.com'')
     = ([St_warning (lit ''Could not retrieve the page. Check URL or status code.'')], None)
   \<and> fetch_html (\<lambda>u. Inl (lit ''Read timed out.'')) (lit ''example.com'')
     = ([St_error (lit ''Error fetching the URL: '' @ lit ''Read timed out.'')], None)"
  using fetch_html_status_200 [of "\<lambda>u. Inr \<lparr>status_code = 200, body = lit ''<title>Example</title>''\<rparr>" "lit ''example.com''"]
    fetch_html_status_200 [of "\<lambda>u. Inr \<lparr>status_code = 404, body = lit ''Not Found''\<rparr>" "lit ''example.com''"]
    fetch_html_status_200 [of "\<lambda>u. Inl (lit ''Read timed out.'')" "lit ''example.com''"]
  by simp

text \<open>
  C7, as the specification states it, fails: a response with the status code 203, which is
  a 2xx code, is answered with the warning and the absence value, not with its body.
\<close>

theorem fetch_html_2xx_counterexample:
  "(200::int) \<le> 203 \<and> (203::int) < 300
   \<and> fetch_html (\<lambda>u. Inr \<lparr>status_code = 203, body = lit ''<title>Example</title>''\<rparr>)
        (lit ''example.com'')
      = ([St_warning (lit ''Could not retrieve the page. Check URL or status code.'')], None)
   \<and> snd (fetch_html (\<lambda>u. Inr \<lparr>status_code = 203, body = lit ''<title>Example</title>''\<rparr>)
        (lit ''example.com'')) \<noteq> Some (lit ''<title>Example</title>'')"
  by (simp add: fetch_html_request)

section \<open>Properties of the advisory generator\<close>

lemma py_strip_decompose:
  "\<exists>a b. s = a @ py_strip U s @ b \<and> list_all (space_char U) a \<and> list_all (space_char U) b"
proof -
  let ?P = "space_char U"
  let ?m = "dropWhile ?P s"
  have "s = takeWhile ?P s @ ?m" by simp
  moreover have "rev ?m = takeWhile ?P (rev ?m) @ dropWhile ?P (rev ?m)" by simp
  then have "?m = rev (dropWhile ?P (rev ?m)) @ rev (takeWhile ?P (rev ?m))"
    by (metis rev_append rev_rev_ident)
  ultimately have "s = takeWhile ?P s @ py_strip U s @ rev (takeWhile ?P (rev ?m))"
    by (simp add: py_strip_def)
  moreover have "list_all ?P (takeWhile ?P s)"
    by (auto simp: list_all_iff dest: set_takeWhileD)
  moreover have "list_all ?P (rev (takeWhile ?P (rev ?m)))"
    by (auto simp: list_all_iff dest: set_takeWhileD)
  ultimately show ?thesis by blast
qed

lemma py_strip_ends:
  assumes "py_strip U s \<noteq> []"
  shows "\<not> space_char U (hd (py_strip U s)) \<and> \<not> space_char U (last (py_strip U s))"
proof -
  let ?P = "space_char U"
  let ?m = "dropWhile ?P s"
  let ?r = "dropWhile ?P (rev ?m)"
  from assms have r: "?r \<noteq> []" by (simp add: py_strip_def)
  then have "\<not> ?P (hd ?r)" by (rule hd_dropWhile)
  then have l: "\<not> ?P (last (py_strip U s))"
    using r by (simp add: py_strip_def last_rev)
  have m: "?m \<noteq> []"
  proof
    assume "?m = []"
    then have "?r = []" by (simp only: rev.simps dropWhile.simps)
    with r show False by simp
  qed
  then have "\<not> ?P (hd ?m)" by (rule hd_dropWhile)
  moreover have "hd (py_strip U s) = hd ?m"
  proof -
    have "?m = py_strip U s @ rev (takeWhile ?P (rev ?m))"
      by (metis py_strip_def rev_append rev_rev_ident takeWhile_dropWhile_id)
    then show ?thesis using assms by (metis hd_append2)
  qed
  ultimately show ?thesis using l by simp
qed

lemma genie_fallback:
  "genie_try U create (genie_prompt page_title meta_desc) = Inl e \<Longrightarrow>
   call_seo_genie U create page_title meta_desc
     = ([St_warning (lit ''OpenAI API error or missing API key. Showing static advice instead.'')],
        static_advice)"
  by (simp add: call_seo_genie_def)

text \<open>
  C8. For every title and description the advisory generator returns without raising. When
  the service raises (as it does without a credential), and when it answers with no
  choice at all, the result is the fixed three-item text, with a warning; otherwise it is
  the first choice's text with the whitespace at both ends removed.
\<close>

theorem call_seo_genie_never_raises:
  "(\<forall>e. create (genie_prompt page_title meta_desc) = Inl e \<longrightarrow>
        call_seo_genie U create page_title meta_desc
          = ([St_warning (lit ''OpenAI API error or missing API key. Showing static advice instead.'')],
             static_advice))
   \<and> (create (genie_prompt page_title meta_desc) = Inr [] \<longrightarrow>
        call_seo_genie U create page_title meta_desc
          = ([St_warning (lit ''OpenAI API error or missing API key. Showing static advice instead.'')],
             static_advice))
   \<and> (\<forall>choice others. create (genie_prompt page_title meta_desc) = Inr (choice # others) \<longrightarrow>
        call_seo_genie U create page_title meta_desc = ([], py_strip U choice))
   \<and> (\<forall>s. \<exists>a b. s = a @ py_strip U s @ b
          \<and> list_all (space_char U) a \<and> list_all (space_char U) b
          \<and> (py_strip U s \<noteq> [] \<longrightarrow>
                \<not> space_char U (hd (py_strip U s)) \<and> \<not> space_char U (last (py_strip U s))))
   \<and> static_advice =
        lit ''1. Ensure your title is eye-catching and includes your main keyword.'' @ [10]
        @ lit ''2. Spice up your meta description with a strong call-to-action.'' @ [10]
        @ lit ''3. Add more engaging headings to structure your content effectively.''"
proof -
  have "call_seo_genie U create page_title meta_desc
          = ([St_warning (lit ''OpenAI API error or missing API key. Showing static advice instead.'')],
             static_advice)"
    if "create (genie_prompt page_title meta_desc) = Inl e" for e
    using that by (intro genie_fallback [of _ _ _ _ "LibraryError e"]) (simp add: genie_try_def)
  moreover have "call_seo_genie U create page_title meta_desc
          = ([St_warning (lit ''OpenAI API error or missing API key. Showing static advice instead.'')],
             static_advice)"
    if "create (genie_prompt page_title meta_desc) = Inr []"
    using that by (intro genie_fallback [of _ _ _ _ IndexError]) (simp add: genie_try_def)
  moreover have "call_seo_genie U create page_title meta_desc = ([], py_strip U choice)"
    if "create (genie_prompt page_title meta_desc) = Inr (choice # others)" for choice others
    using that by (simp add: call_seo_genie_def genie_try_def)
  moreover have "\<exists>a b. s = a @ py_strip U s @ b
          \<and> list_all (space_char U) a \<and> list_all (space_char U) b
          \<and> (py_strip U s \<noteq> [] \<longrightarrow>
                \<not> space_char U (hd (py_strip U s)) \<and> \<not> space_char U (last (py_strip U s)))" for s
    using py_strip_decompose [of s U] py_strip_ends [of U s] by blast
  ultimately show ?thesis
    by (simp only: static_advice_def simp_thms) blast
qed

theorem call_seo_genie_never_raises_witness:
  "call_seo_genie no_unicode (\<lambda>prompt. Inl (lit ''No API key provided.'')) (lit ''Home'') (lit ''A page'')
     = ([St_warning (lit ''OpenAI API error or missing API key. Showing static advice instead.'')],
        static_advice)
   \<and> call_seo_genie no_unicode (\<lambda>prompt. Inr []) (lit ''Home'') (lit ''A page'')
     = ([St_warning (lit ''OpenAI API error or missing API key. Showing static advice instead.'')],
        static_advice)
   \<and> call_seo_genie no_unicode (\<lambda>prompt. Inr [lit ''  1. Add keywords. '']) (lit ''Home'') (lit ''A page'')
     = ([], py_strip no_unicode (lit ''  1. Add keywords. ''))
   \<and> py_strip no_unicode (lit ''  1. Add keywords. '') = lit ''1. Add keywords.''"
proof -
  have "py_strip no_unicode (lit ''  1. Add keywords. '') = lit ''1. Add keywords.''"
    by code_simp
  then show ?thesis
    using call_seo_genie_never_raises [of "\<lambda>prompt. Inl (lit ''No API key provided.'')" "lit ''Home''" "lit ''A page''" no_unicode]
      call_seo_genie_never_raises [of "\<lambda>prompt. Inr []" "lit ''Home''" "lit ''A page''" no_unicode]
      call_seo_genie_never_raises [of "\<lambda>prompt. Inr [lit ''  1. Add keywords. '']" "lit ''Home''" "lit ''A page''" no_unicode]
    by simp
qed

section \<open>Properties of the orchestration\<close>

lemma comparison_summary_scores:
  assumes "url1 \<noteq> []" and "url2 \<noteq> []"
  shows "comparison_summary url1 url2 (Some s1) (Some s2) =
    ([St_title ([127881, 32] @ lit ''Comparison Summary''),
      (if s1 - s2 > 0 then St_success (lit ''Your site leads by '' @ py_str_int (s1 - s2) @ lit '' points!'')
       else if s1 - s2 < 0 then St_warning (lit ''Competitor leads by '' @ py_str_int (s2 - s1) @ lit '' points!'')
       else St_info (lit ''It'' @ [8217] @ lit ''s a tie! Both sites have the same SEO Health Score.''))],
     None)"
  using assms by (simp add: comparison_summary_def Let_def)

lemma comparison_summary_examples:
  "comparison_summary (lit ''a.com'') (lit ''b.com'') (Some 40) (Some 25) =
     ([St_title ([127881, 32] @ lit ''Comparison Summary''),
       St_success (lit ''Your site leads by 15 points!'')], None)"
  "comparison_summary (lit ''a.com'') (lit ''b.com'') (Some 25) (Some 40) =
     ([St_title ([127881, 32] @ lit ''Comparison Summary''),
       St_warning (lit ''Competitor leads by 15 points!'')], None)"
  by (simp_all add: comparison_summary_def Let_def py_str_int_def lit_def)

lemma comparison_summary_unbound:
  assumes "url1 \<noteq> []" and "url2 \<noteq> []"
  shows "comparison_summary url1 url2 None score2 =
    ([St_title ([127881, 32] @ lit ''Comparison Summary'')], Some (UnboundLocalError ''score1''))"
  using assms by (simp add: comparison_summary_def Let_def)

lemma site_block_failed_fetch:
  assumes "url \<noteq> []" and "snd (fetch_html (requests_get S) url) = None"
  shows "site_block U S heading advice_heading url
     = ([St_subheader heading] @ fst (fetch_html (requests_get S) url), Inr None)"
proof (cases "fetch_html (requests_get S) url")
  case (Pair fetch_events fetched)
  with assms show ?thesis by (simp add: site_block_def)
qed

lemma main_failed_fetch:
  assumes "url1 \<noteq> []" and "url2 \<noteq> []"
    and "snd (fetch_html (requests_get S) url1) = None"
    and "site_block U S (lit ''Competitor Site Analysis'')
           (lit ''### SEO Genie'' @ [8217] @ lit ''s Competitor Tips'') url2 = (events2, Inr score2)"
  shows "snd (main U S url1 url2 True) = Some (UnboundLocalError ''score1'')
    \<and> St_title ([127881, 32] @ lit ''Comparison Summary'') \<in> set (fst (main U S url1 url2 True))"
  using assms
  by (simp add: main_def Let_def site_block_failed_fetch comparison_summary_unbound)

text \<open>
  C6 on the code. Both URLs are given, the first page is not found and the second is: the
  comparison is entered all the same, its title is rendered, and reading \<open>score1\<close>, which
  no statement assigned, raises \<open>UnboundLocalError\<close>.
\<close>

theorem comparison_after_failed_fetch:
  "snd (fetch_html (requests_get sample_services) (lit ''example.com'')) = None
   \<and> snd (main no_unicode sample_services (lit ''example.com'') (lit ''competitor.com'') True)
       = Some (UnboundLocalError ''score1'')
   \<and> St_title ([127881, 32] @ lit ''Comparison Summary'')
       \<in> set (fst (main no_unicode sample_services (lit ''example.com'') (lit ''competitor.com'') True))"
proof -
  let ?block2 = "site_block no_unicode sample_services (lit ''Competitor Site Analysis'')
           (lit ''### SEO Genie'' @ [8217] @ lit ''s Competitor Tips'') (lit ''competitor.com'')"
  have u: "lit ''example.com'' \<noteq> []" "lit ''competitor.com'' \<noteq> []"
    by (simp_all add: lit_def)
  have f1: "snd (fetch_html (requests_get sample_services) (lit ''example.com'')) = None"
    by code_simp
  have "snd ?block2 = Inr (Some 30)"
    by code_simp
  then have f2: "?block2 = (fst ?block2, Inr (Some 30))"
    by (metis prod.collapse)
  show ?thesis
    using f1 main_failed_fetch [OF u f1 f2] by simp
qed

end
